theory Spec2Isabelle
  imports Main
begin

section \<open>Constants of snake.py\<close>

text \<open>
  A grid position and a direction are both Python 2-tuples of unbounded integers.
\<close>

type_synonym pos = "int \<times> int"

definition SCREEN_WIDTH :: int where "SCREEN_WIDTH = 600"
definition SCREEN_HEIGHT :: int where "SCREEN_HEIGHT = 480"
definition GRID_SIZE :: int where "GRID_SIZE = 20"
definition GRID_WIDTH :: int where "GRID_WIDTH = SCREEN_WIDTH div GRID_SIZE"
definition GRID_HEIGHT :: int where "GRID_HEIGHT = SCREEN_HEIGHT div GRID_SIZE"

definition UP :: pos where "UP = (0, -1)"
definition DOWN :: pos where "DOWN = (0, 1)"
definition LEFT :: pos where "LEFT = (-1, 0)"
definition RIGHT :: pos where "RIGHT = (1, 0)"

section \<open>Errors\<close>

text \<open>
  \<open>IndexError\<close> is what \<open>self.body[0]\<close> raises on an empty list; \<open>SystemExit\<close> is what
  \<open>sys.exit()\<close> raises after a QUIT event.
\<close>

datatype error = IndexError | SystemExit

definition then_do :: "error + 'a \<Rightarrow> ('a \<Rightarrow> error + 'b) \<Rightarrow> error + 'b" where
  "then_do r f = (case r of Inl e \<Rightarrow> Inl e | Inr x \<Rightarrow> f x)"

section \<open>class Snake\<close>

record snake =
  body :: "pos list"
  direction :: pos
  growth_pending :: bool

text \<open>\<open>Snake.__init__\<close>\<close>

definition Snake_init :: snake where
  "Snake_init =
     \<lparr>body = [(GRID_WIDTH div 2, GRID_HEIGHT div 2)], direction = RIGHT,
      growth_pending = False\<rparr>"

text \<open>
  \<open>Snake.move\<close>: reading \<open>self.body[0]\<close> raises on an empty body; \<open>pop()\<close> drops the last
  element, \<open>insert(0, new_head)\<close> puts the new head in front.
\<close>

definition move :: "snake \<Rightarrow> error + snake" where
  "move s =
     (case body s of
        [] \<Rightarrow> Inl IndexError
      | (head_x, head_y) # _ \<Rightarrow>
          let new_head = (head_x + fst (direction s), head_y + snd (direction s));
              s1 = (if \<not> growth_pending s then s\<lparr>body := butlast (body s)\<rparr>
                    else s\<lparr>growth_pending := False\<rparr>)
          in Inr (s1\<lparr>body := new_head # body s1\<rparr>))"

text \<open>\<open>Snake.change_direction\<close>\<close>

definition change_direction :: "snake \<Rightarrow> pos \<Rightarrow> snake" where
  "change_direction s new_direction =
     (if (fst new_direction * -1, snd new_direction * -1) \<noteq> direction s
      then s\<lparr>direction := new_direction\<rparr> else s)"

text \<open>\<open>Snake.grow\<close>\<close>

definition grow :: "snake \<Rightarrow> snake" where
  "grow s = s\<lparr>growth_pending := True\<rparr>"

text \<open>\<open>Snake.get_head_position\<close>\<close>

definition get_head_position :: "snake \<Rightarrow> error + pos" where
  "get_head_position s = (case body s of [] \<Rightarrow> Inl IndexError | h # _ \<Rightarrow> Inr h)"

section \<open>The random module\<close>

text \<open>
  The generator of Python's \<open>random\<close> module is global state. It is modelled as a
  sequence of raw draws and the number of draws already consumed. \<open>randint a b\<close> is
  called only as \<open>randint(0, GRID_WIDTH - 1)\<close> and \<open>randint(0, GRID_HEIGHT - 1)\<close>, where
  \<open>a \<le> b\<close>; it returns an integer of the closed range \<open>[a, b]\<close>.
\<close>

record random_state =
  draws :: "nat \<Rightarrow> nat"
  cursor :: nat

definition randint :: "int \<Rightarrow> int \<Rightarrow> random_state \<Rightarrow> int \<times> random_state" where
  "randint a b r =
     (a + int (draws r (cursor r) mod nat (b - a + 1)), r\<lparr>cursor := Suc (cursor r)\<rparr>)"

section \<open>class Food\<close>

record food =
  position :: pos

text \<open>\<open>Food.spawn_food\<close>\<close>

definition spawn_food :: "random_state \<Rightarrow> pos \<times> random_state" where
  "spawn_food r =
     (let (x, r1) = randint 0 (GRID_WIDTH - 1) r;
          (y, r2) = randint 0 (GRID_HEIGHT - 1) r1
      in ((x, y), r2))"

text \<open>\<open>Food.__init__\<close>\<close>

definition Food_init :: "random_state \<Rightarrow> food \<times> random_state" where
  "Food_init r = (let (p, r1) = spawn_food r in (\<lparr>position = p\<rparr>, r1))"

section \<open>class Game\<close>

text \<open>
  The fields of \<open>Game\<close> that carry game state, and the state of the random module.
  The screen, the clock and the font are rendering resources and are not modelled.
\<close>

record game =
  snake :: snake
  food :: food
  score :: int
  game_over :: bool
  rng :: random_state

text \<open>\<open>Game.reset_game\<close>\<close>

definition reset_game :: "game \<Rightarrow> game" where
  "reset_game g =
     (let (f, r) = Food_init (rng g)
      in g\<lparr>snake := Snake_init, food := f, score := 0, game_over := False, rng := r\<rparr>)"

text \<open>
  Events as the program distinguishes them: QUIT, KEYDOWN with one of the four arrow keys
  or any other key, and every other event type.
\<close>

datatype key = K_UP | K_DOWN | K_LEFT | K_RIGHT | K_OTHER

datatype event = QUIT | KEYDOWN key | OTHER_EVENT

text \<open>
  \<open>Game._handle_events\<close>: the loop over one result of \<open>pygame.event.get()\<close>. A QUIT event
  ends the process with \<open>sys.exit()\<close>.
\<close>

fun handle_events :: "game \<Rightarrow> event list \<Rightarrow> error + game" where
  "handle_events g [] = Inr g"
| "handle_events g (QUIT # evs) = Inl SystemExit"
| "handle_events g (KEYDOWN k # evs) =
     handle_events
       (case k of
          K_UP \<Rightarrow> g\<lparr>snake := change_direction (snake g) UP\<rparr>
        | K_DOWN \<Rightarrow> g\<lparr>snake := change_direction (snake g) DOWN\<rparr>
        | K_LEFT \<Rightarrow> g\<lparr>snake := change_direction (snake g) LEFT\<rparr>
        | K_RIGHT \<Rightarrow> g\<lparr>snake := change_direction (snake g) RIGHT\<rparr>
        | K_OTHER \<Rightarrow> g) evs"
| "handle_events g (OTHER_EVENT # evs) = handle_events g evs"

text \<open>
  \<open>Game._check_collisions\<close>: the three checks run one after the other, none of them
  returns early. \<open>self.snake.body[1:]\<close> is the body without its first element.
\<close>

definition check_collisions :: "game \<Rightarrow> error + game" where
  "check_collisions g =
     (case get_head_position (snake g) of
        Inl e \<Rightarrow> Inl e
      | Inr head_pos \<Rightarrow>
          let g1 = (if head_pos = position (food g)
                    then (let (p, r) = spawn_food (rng g)
                          in g\<lparr>snake := grow (snake g), score := score g + 10,
                               food := (food g)\<lparr>position := p\<rparr>, rng := r\<rparr>)
                    else g);
              g2 = (if fst head_pos < 0 \<or> fst head_pos \<ge> GRID_WIDTH \<or>
                       snd head_pos < 0 \<or> snd head_pos \<ge> GRID_HEIGHT
                    then g1\<lparr>game_over := True\<rparr> else g1);
              g3 = (if head_pos \<in> set (drop 1 (body (snake g2)))
                    then g2\<lparr>game_over := True\<rparr> else g2)
          in Inr g3)"

text \<open>
  The loop over one result of \<open>pygame.event.get()\<close> inside the \<open>while waiting\<close> loop of
  \<open>Game._display_game_over\<close>. The loop has no \<open>break\<close>: events after a KEYDOWN are still
  looked at.
\<close>

fun wait_events :: "bool \<times> game \<Rightarrow> event list \<Rightarrow> error + bool \<times> game" where
  "wait_events (waiting, g) [] = Inr (waiting, g)"
| "wait_events (waiting, g) (QUIT # evs) = Inl SystemExit"
| "wait_events (waiting, g) (KEYDOWN k # evs) = wait_events (False, reset_game g) evs"
| "wait_events (waiting, g) (OTHER_EVENT # evs) = wait_events (waiting, g) evs"

text \<open>
  \<open>Game.run\<close> never returns, and \<open>_display_game_over\<close> is a second loop inside it. Both
  loops call \<open>pygame.event.get()\<close> once per round, so the program is modelled as a
  machine that consumes one result of \<open>pygame.event.get()\<close> per step. The control state
  says which loop makes the next call: \<open>MainLoop\<close> is the top of \<open>while True\<close> in \<open>run\<close>,
  \<open>WaitLoop\<close> is the top of \<open>while waiting\<close> in \<open>_display_game_over\<close>. Drawing, the display
  flip and the clock tick change no game state.
\<close>

datatype pc = MainLoop | WaitLoop

text \<open>The branch \<open>if not self.game_over\<close> of \<open>run\<close>: \<open>move\<close>, then \<open>_check_collisions\<close>.\<close>

definition tick :: "game \<Rightarrow> error + game" where
  "tick g = then_do (move (snake g)) (\<lambda>s. check_collisions (g\<lparr>snake := s\<rparr>))"

fun run_poll :: "pc \<times> game \<Rightarrow> event list \<Rightarrow> error + pc \<times> game" where
  "run_poll (MainLoop, g) evs =
     then_do (handle_events g evs) (\<lambda>g1.
       if \<not> game_over g1 then then_do (tick g1) (\<lambda>g2. Inr (MainLoop, g2))
       else Inr (WaitLoop, g1))"
| "run_poll (WaitLoop, g) evs =
     then_do (wait_events (True, g) evs) (\<lambda>(waiting, g1).
       Inr (if waiting then WaitLoop else MainLoop, g1))"

text \<open>\<open>run\<close> on a finite sequence of results of \<open>pygame.event.get()\<close>: the state reached.\<close>

fun run :: "pc \<times> game \<Rightarrow> event list list \<Rightarrow> error + pc \<times> game" where
  "run st [] = Inr st"
| "run st (evs # polls) = then_do (run_poll st evs) (\<lambda>st'. run st' polls)"

text \<open>
  The ticks of one game: the rounds of \<open>run\<close> taken from the main loop while the game is
  not over. Once the game-over flag is set no further tick happens.
\<close>

fun ticks :: "game \<Rightarrow> event list list \<Rightarrow> error + game" where
  "ticks g [] = Inr g"
| "ticks g (evs # polls) =
     (if game_over g then Inr g
      else then_do (run_poll (MainLoop, g) evs) (\<lambda>(p, g'). ticks g' polls))"

section \<open>Basic facts\<close>

lemma grid_dimensions: "GRID_WIDTH = 30 \<and> GRID_HEIGHT = 24"
  by (simp add: GRID_WIDTH_def GRID_HEIGHT_def SCREEN_WIDTH_def SCREEN_HEIGHT_def GRID_SIZE_def)

lemma move_nonempty:
  assumes "body s \<noteq> []"
  shows "move s = Inr \<lparr>body = (fst (hd (body s)) + fst (direction s),
                               snd (hd (body s)) + snd (direction s))
                              # (if growth_pending s then body s else butlast (body s)),
                       direction = direction s, growth_pending = False\<rparr>"
  using assms by (cases s; cases "body s") (auto simp: move_def Let_def)

lemma change_direction_keeps:
  "body (change_direction s d) = body s \<and>
   growth_pending (change_direction s d) = growth_pending s"
  by (simp add: change_direction_def)

lemma handle_events_no_quit:
  "QUIT \<notin> set evs \<Longrightarrow>
   \<exists>s'. handle_events g evs = Inr (g\<lparr>snake := s'\<rparr>) \<and> body s' = body (snake g) \<and>
        growth_pending s' = growth_pending (snake g)"
proof (induction g evs rule: handle_events.induct)
  case (1 g)
  have "g = g\<lparr>snake := snake g\<rparr>" by simp
  then show ?case by (metis handle_events.simps(1))
next
  case (2 g evs)
  then show ?case by simp
next
  case (3 g k evs)
  then show ?case
    by (cases k) (auto simp: change_direction_keeps)
next
  case (4 g evs)
  then show ?case by simp
qed

lemma in_drop1_iff:
  "h \<in> set (drop 1 xs) \<longleftrightarrow> (\<exists>i. 0 < i \<and> i < length xs \<and> xs ! i = h)"
proof (cases xs)
  case Nil
  then show ?thesis by simp
next
  case (Cons x t)
  have "h \<in> set t \<longleftrightarrow> (\<exists>j<length t. t ! j = h)"
    by (simp add: in_set_conv_nth)
  also have "\<dots> \<longleftrightarrow> (\<exists>i. 0 < i \<and> i < length (x # t) \<and> (x # t) ! i = h)"
  proof
    assume "\<exists>j<length t. t ! j = h"
    then obtain j where "j < length t" "t ! j = h" by blast
    then have "0 < Suc j \<and> Suc j < length (x # t) \<and> (x # t) ! Suc j = h" by simp
    then show "\<exists>i. 0 < i \<and> i < length (x # t) \<and> (x # t) ! i = h" by blast
  next
    assume "\<exists>i. 0 < i \<and> i < length (x # t) \<and> (x # t) ! i = h"
    then obtain i where i: "0 < i" "i < length (x # t)" "(x # t) ! i = h" by blast
    then obtain j where "i = Suc j" by (cases i) auto
    with i show "\<exists>j<length t. t ! j = h" by auto
  qed
  finally show ?thesis using Cons by simp
qed

lemma randint_range:
  assumes "a \<le> b"
  shows "a \<le> fst (randint a b r) \<and> fst (randint a b r) \<le> b"
proof -
  have "0 < nat (b - a + 1)" using assms by simp
  then have "draws r (cursor r) mod nat (b - a + 1) < nat (b - a + 1)"
    by (rule mod_less_divisor)
  then have "int (draws r (cursor r) mod nat (b - a + 1)) < b - a + 1"
    using assms by linarith
  then show ?thesis by (simp add: randint_def)
qed

lemma spawn_food_in_grid:
  "0 \<le> fst (fst (spawn_food r)) \<and> fst (fst (spawn_food r)) < GRID_WIDTH \<and>
   0 \<le> snd (fst (spawn_food r)) \<and> snd (fst (spawn_food r)) < GRID_HEIGHT"
proof -
  obtain x r1 where x: "randint 0 (GRID_WIDTH - 1) r = (x, r1)" by (cases "randint 0 (GRID_WIDTH - 1) r")
  obtain y r2 where y: "randint 0 (GRID_HEIGHT - 1) r1 = (y, r2)" by (cases "randint 0 (GRID_HEIGHT - 1) r1")
  have "0 \<le> x \<and> x \<le> GRID_WIDTH - 1"
    using randint_range [of 0 "GRID_WIDTH - 1" r] x by (simp add: grid_dimensions)
  moreover have "0 \<le> y \<and> y \<le> GRID_HEIGHT - 1"
    using randint_range [of 0 "GRID_HEIGHT - 1" r1] y by (simp add: grid_dimensions)
  ultimately show ?thesis by (simp add: spawn_food_def x y)
qed

lemma check_collisions_cons:
  assumes "body (snake g) = h # t"
  shows "\<exists>g'. check_collisions g = Inr g' \<and>
           body (snake g') = h # t \<and> direction (snake g') = direction (snake g) \<and>
           (game_over g' \<longleftrightarrow> game_over g \<or> fst h < 0 \<or> GRID_WIDTH \<le> fst h \<or>
                                snd h < 0 \<or> GRID_HEIGHT \<le> snd h \<or> h \<in> set t) \<and>
           (growth_pending (snake g') \<longleftrightarrow> growth_pending (snake g) \<or> h = position (food g)) \<and>
           score g' = (if h = position (food g) then score g + 10 else score g) \<and>
           (position (food g'), rng g') =
             (if h = position (food g) then spawn_food (rng g) else (position (food g), rng g))"
  using assms
  by (cases "spawn_food (rng g)")
     (auto simp: check_collisions_def get_head_position_def grow_def Let_def)

lemma tick_nonempty:
  assumes "body (snake g) \<noteq> []"
  shows "\<exists>s g'. move (snake g) = Inr s \<and> tick g = Inr g' \<and>
           body s = (fst (hd (body (snake g))) + fst (direction (snake g)),
                     snd (hd (body (snake g))) + snd (direction (snake g)))
                    # (if growth_pending (snake g) then body (snake g) else butlast (body (snake g))) \<and>
           body (snake g') = body s \<and> direction (snake g') = direction (snake g) \<and>
           (game_over g' \<longleftrightarrow> game_over g \<or> fst (hd (body s)) < 0 \<or> GRID_WIDTH \<le> fst (hd (body s)) \<or>
              snd (hd (body s)) < 0 \<or> GRID_HEIGHT \<le> snd (hd (body s)) \<or>
              hd (body s) \<in> set (drop 1 (body s))) \<and>
           (growth_pending (snake g') \<longleftrightarrow> hd (body s) = position (food g)) \<and>
           score g' = (if hd (body s) = position (food g) then score g + 10 else score g) \<and>
           (position (food g'), rng g') =
             (if hd (body s) = position (food g) then spawn_food (rng g)
              else (position (food g), rng g))"
proof -
  let ?h = "(fst (hd (body (snake g))) + fst (direction (snake g)),
             snd (hd (body (snake g))) + snd (direction (snake g)))"
  let ?t = "if growth_pending (snake g) then body (snake g) else butlast (body (snake g))"
  let ?s = "\<lparr>body = ?h # ?t, direction = direction (snake g), growth_pending = False\<rparr>"
  have m: "move (snake g) = Inr ?s"
    using assms by (rule move_nonempty)
  define g0 where "g0 = g\<lparr>snake := ?s\<rparr>"
  have b: "body (snake g0) = ?h # ?t" by (simp add: g0_def)
  from check_collisions_cons [OF b] obtain g' where
    g': "check_collisions g0 = Inr g' \<and>
           body (snake g') = ?h # ?t \<and> direction (snake g') = direction (snake g0) \<and>
           (game_over g' \<longleftrightarrow> game_over g0 \<or> fst ?h < 0 \<or> GRID_WIDTH \<le> fst ?h \<or>
                                snd ?h < 0 \<or> GRID_HEIGHT \<le> snd ?h \<or> ?h \<in> set ?t) \<and>
           (growth_pending (snake g') \<longleftrightarrow> growth_pending (snake g0) \<or> ?h = position (food g0)) \<and>
           score g' = (if ?h = position (food g0) then score g0 + 10 else score g0) \<and>
           (position (food g'), rng g') =
             (if ?h = position (food g0) then spawn_food (rng g0) else (position (food g0), rng g0))"
    by (rule exE)
  have t: "tick g = Inr g'"
    using g' by (simp add: tick_def then_do_def m g0_def)
  have "move (snake g) = Inr ?s \<and> tick g = Inr g' \<and> body ?s = ?h # ?t \<and>
        body (snake g') = body ?s \<and> direction (snake g') = direction (snake g) \<and>
        (game_over g' \<longleftrightarrow> game_over g \<or> fst (hd (body ?s)) < 0 \<or> GRID_WIDTH \<le> fst (hd (body ?s)) \<or>
              snd (hd (body ?s)) < 0 \<or> GRID_HEIGHT \<le> snd (hd (body ?s)) \<or>
              hd (body ?s) \<in> set (drop 1 (body ?s))) \<and>
        (growth_pending (snake g') \<longleftrightarrow> hd (body ?s) = position (food g)) \<and>
        score g' = (if hd (body ?s) = position (food g) then score g + 10 else score g) \<and>
        (position (food g'), rng g') =
             (if hd (body ?s) = position (food g) then spawn_food (rng g)
              else (position (food g), rng g))"
    using m t g' by (simp add: g0_def)
  then show ?thesis by blast
qed

lemma main_loop_tick:
  assumes "\<not> game_over g" "body (snake g) \<noteq> []" "QUIT \<notin> set evs"
  shows "\<exists>g1 s g'. handle_events g evs = Inr g1 \<and> move (snake g1) = Inr s \<and>
           run_poll (MainLoop, g) evs = Inr (MainLoop, g') \<and>
           body (snake g1) = body (snake g) \<and>
           body s = (fst (hd (body (snake g))) + fst (direction (snake g1)),
                     snd (hd (body (snake g))) + snd (direction (snake g1)))
                    # (if growth_pending (snake g) then body (snake g) else butlast (body (snake g))) \<and>
           body (snake g') = body s \<and>
           (game_over g' \<longleftrightarrow> fst (hd (body s)) < 0 \<or> GRID_WIDTH \<le> fst (hd (body s)) \<or>
              snd (hd (body s)) < 0 \<or> GRID_HEIGHT \<le> snd (hd (body s)) \<or>
              hd (body s) \<in> set (drop 1 (body s))) \<and>
           (growth_pending (snake g') \<longleftrightarrow> hd (body s) = position (food g)) \<and>
           score g' = (if hd (body s) = position (food g) then score g + 10 else score g) \<and>
           (position (food g'), rng g') =
             (if hd (body s) = position (food g) then spawn_food (rng g)
              else (position (food g), rng g))"
proof -
  from handle_events_no_quit [OF assms(3), of g] obtain s1 where
    h: "handle_events g evs = Inr (g\<lparr>snake := s1\<rparr>)" "body s1 = body (snake g)"
       "growth_pending s1 = growth_pending (snake g)"
    by blast
  define g1 where "g1 = g\<lparr>snake := s1\<rparr>"
  have g1: "snake g1 = s1" "food g1 = food g" "score g1 = score g" "rng g1 = rng g"
    "game_over g1 = game_over g"
    by (simp_all add: g1_def)
  have ne: "body (snake g1) \<noteq> []" using assms(2) h(2) g1(1) by simp
  from tick_nonempty [OF ne] obtain s g' where
    t: "move (snake g1) = Inr s \<and> tick g1 = Inr g' \<and>
           body s = (fst (hd (body (snake g1))) + fst (direction (snake g1)),
                     snd (hd (body (snake g1))) + snd (direction (snake g1)))
                    # (if growth_pending (snake g1) then body (snake g1) else butlast (body (snake g1))) \<and>
           body (snake g') = body s \<and> direction (snake g') = direction (snake g1) \<and>
           (game_over g' \<longleftrightarrow> game_over g1 \<or> fst (hd (body s)) < 0 \<or> GRID_WIDTH \<le> fst (hd (body s)) \<or>
              snd (hd (body s)) < 0 \<or> GRID_HEIGHT \<le> snd (hd (body s)) \<or>
              hd (body s) \<in> set (drop 1 (body s))) \<and>
           (growth_pending (snake g') \<longleftrightarrow> hd (body s) = position (food g1)) \<and>
           score g' = (if hd (body s) = position (food g1) then score g1 + 10 else score g1) \<and>
           (position (food g'), rng g') =
             (if hd (body s) = position (food g1) then spawn_food (rng g1)
              else (position (food g1), rng g1))"
    by blast
  have r: "run_poll (MainLoop, g) evs = Inr (MainLoop, g')"
    using h(1) t assms(1) by (simp add: then_do_def g1_def)
  have "handle_events g evs = Inr g1 \<and> move (snake g1) = Inr s \<and>
           run_poll (MainLoop, g) evs = Inr (MainLoop, g') \<and>
           body (snake g1) = body (snake g) \<and>
           body s = (fst (hd (body (snake g))) + fst (direction (snake g1)),
                     snd (hd (body (snake g))) + snd (direction (snake g1)))
                    # (if growth_pending (snake g) then body (snake g) else butlast (body (snake g))) \<and>
           body (snake g') = body s \<and>
           (game_over g' \<longleftrightarrow> fst (hd (body s)) < 0 \<or> GRID_WIDTH \<le> fst (hd (body s)) \<or>
              snd (hd (body s)) < 0 \<or> GRID_HEIGHT \<le> snd (hd (body s)) \<or>
              hd (body s) \<in> set (drop 1 (body s))) \<and>
           (growth_pending (snake g') \<longleftrightarrow> hd (body s) = position (food g)) \<and>
           score g' = (if hd (body s) = position (food g) then score g + 10 else score g) \<and>
           (position (food g'), rng g') =
             (if hd (body s) = position (food g) then spawn_food (rng g)
              else (position (food g), rng g))"
    using h r t assms(1) unfolding g1 by (simp add: g1_def)
  then show ?thesis by blast
qed

lemma main_loop_length:
  assumes "\<not> game_over g" "body (snake g) \<noteq> []" "QUIT \<notin> set evs"
  shows "\<exists>g'. run_poll (MainLoop, g) evs = Inr (MainLoop, g') \<and>
           length (body (snake g')) =
             length (body (snake g)) + (if growth_pending (snake g) then 1 else 0) \<and>
           (growth_pending (snake g') \<longleftrightarrow> hd (body (snake g')) = position (food g))"
proof -
  have len: "Suc (length (if growth_pending (snake g) then body (snake g)
                          else butlast (body (snake g)))) =
             length (body (snake g)) + (if growth_pending (snake g) then 1 else 0)"
    using assms(2) by (cases "body (snake g)") auto
  from main_loop_tick [OF assms] show ?thesis
    by (elim exE conjE) (simp add: len)
qed

lemma ticks_length:
  assumes "body (snake g) \<noteq> []" "\<forall>evs\<in>set polls. QUIT \<notin> set evs"
  shows "\<exists>g'. ticks g polls = Inr g' \<and> length (body (snake g)) \<le> length (body (snake g'))"
  using assms
proof (induction polls arbitrary: g)
  case Nil
  then show ?case by simp
next
  case (Cons evs polls)
  show ?case
  proof (cases "game_over g")
    case True
    then show ?thesis by simp
  next
    case False
    have q: "QUIT \<notin> set evs" using Cons.prems(2) by simp
    from main_loop_length [OF False Cons.prems(1) q] obtain g1 where
      g1: "run_poll (MainLoop, g) evs = Inr (MainLoop, g1)"
          "length (body (snake g1)) =
             length (body (snake g)) + (if growth_pending (snake g) then 1 else 0)"
      by blast
    have ne: "body (snake g1) \<noteq> []"
      using g1(2) Cons.prems(1) by (cases "body (snake g1)") auto
    have "\<forall>evs\<in>set polls. QUIT \<notin> set evs" using Cons.prems(2) by simp
    from Cons.IH [OF ne this] obtain g' where
      g': "ticks g1 polls = Inr g'" "length (body (snake g1)) \<le> length (body (snake g'))"
      by blast
    have "ticks g (evs # polls) = Inr g'"
      using False g1(1) g'(1) by (simp add: then_do_def)
    moreover have "length (body (snake g)) \<le> length (body (snake g'))"
      using g1(2) g'(2) by (simp split: if_splits)
    ultimately show ?thesis by blast
  qed
qed

lemma reset_game_state:
  "score (reset_game g) = 0 \<and> snake (reset_game g) = Snake_init \<and> \<not> game_over (reset_game g) \<and>
   (food (reset_game g), rng (reset_game g)) = Food_init (rng g)"
  by (cases "Food_init (rng g)") (simp add: reset_game_def)

lemma wait_events_after_reset:
  assumes "QUIT \<notin> set evs"
    "score g = 0 \<and> snake g = Snake_init \<and> \<not> game_over g \<and> (\<exists>r. (food g, rng g) = Food_init r)"
  shows "\<exists>g'. wait_events (False, g) evs = Inr (False, g') \<and>
           score g' = 0 \<and> snake g' = Snake_init \<and> \<not> game_over g' \<and>
           (\<exists>r. (food g', rng g') = Food_init r)"
  using assms
proof (induction evs arbitrary: g)
  case Nil
  then show ?case by simp
next
  case (Cons e evs)
  show ?case
  proof (cases e)
    case QUIT
    then show ?thesis using Cons.prems(1) by simp
  next
    case (KEYDOWN k)
    have "score (reset_game g) = 0 \<and> snake (reset_game g) = Snake_init \<and>
          \<not> game_over (reset_game g) \<and>
          (\<exists>r. (food (reset_game g), rng (reset_game g)) = Food_init r)"
      using reset_game_state [of g] by blast
    moreover have "QUIT \<notin> set evs" using Cons.prems(1) by simp
    ultimately show ?thesis using Cons.IH [of "reset_game g"] KEYDOWN by simp
  next
    case OTHER_EVENT
    then show ?thesis using Cons.IH [of g] Cons.prems by simp
  qed
qed

lemma wait_events_keydown:
  assumes "QUIT \<notin> set evs" "KEYDOWN k \<in> set evs"
  shows "\<exists>g'. wait_events (w, g) evs = Inr (False, g') \<and>
           score g' = 0 \<and> snake g' = Snake_init \<and> \<not> game_over g' \<and>
           (\<exists>r. (food g', rng g') = Food_init r)"
  using assms
proof (induction evs)
  case Nil
  then show ?case by simp
next
  case (Cons e evs)
  show ?case
  proof (cases e)
    case QUIT
    then show ?thesis using Cons.prems(1) by simp
  next
    case (KEYDOWN k')
    have "score (reset_game g) = 0 \<and> snake (reset_game g) = Snake_init \<and>
          \<not> game_over (reset_game g) \<and>
          (\<exists>r. (food (reset_game g), rng (reset_game g)) = Food_init r)"
      using reset_game_state [of g] by blast
    moreover have "QUIT \<notin> set evs" using Cons.prems(1) by simp
    ultimately show ?thesis using wait_events_after_reset [of evs "reset_game g"] KEYDOWN by simp
  next
    case OTHER_EVENT
    then show ?thesis using Cons.IH Cons.prems by simp
  qed
qed

lemma Food_init_in_grid:
  assumes "(f, r') = Food_init r"
  shows "0 \<le> fst (position f) \<and> fst (position f) < GRID_WIDTH \<and>
         0 \<le> snd (position f) \<and> snd (position f) < GRID_HEIGHT"
proof -
  have "position f = fst (spawn_food r)"
    using assms by (cases "spawn_food r") (simp add: Food_init_def)
  then show ?thesis using spawn_food_in_grid [of r] by simp
qed

lemma two_ticks_length:
  assumes "\<not> game_over g" "body (snake g) \<noteq> []" "QUIT \<notin> set evs" "QUIT \<notin> set evs2"
  shows "\<exists>g1. run_poll (MainLoop, g) evs = Inr (MainLoop, g1) \<and>
           (\<not> game_over g1 \<longrightarrow>
              (\<exists>g2. run_poll (MainLoop, g1) evs2 = Inr (MainLoop, g2) \<and>
                 length (body (snake g2)) =
                   length (body (snake g1)) +
                   (if hd (body (snake g1)) = position (food g) then 1 else 0)))"
proof -
  from main_loop_length [OF assms(1-3)] obtain g1 where
    g1: "run_poll (MainLoop, g) evs = Inr (MainLoop, g1)"
        "length (body (snake g1)) =
           length (body (snake g)) + (if growth_pending (snake g) then 1 else 0)"
        "growth_pending (snake g1) \<longleftrightarrow> hd (body (snake g1)) = position (food g)"
    by blast
  have ne: "body (snake g1) \<noteq> []"
    using g1(2) assms(2) by (cases "body (snake g1)") auto
  have "\<not> game_over g1 \<longrightarrow>
          (\<exists>g2. run_poll (MainLoop, g1) evs2 = Inr (MainLoop, g2) \<and>
             length (body (snake g2)) =
               length (body (snake g1)) +
               (if hd (body (snake g1)) = position (food g) then 1 else 0))"
  proof
    assume r: "\<not> game_over g1"
    from main_loop_length [OF r ne assms(4)] obtain g2 where
      "run_poll (MainLoop, g1) evs2 = Inr (MainLoop, g2)"
      "length (body (snake g2)) =
         length (body (snake g1)) + (if growth_pending (snake g1) then 1 else 0)"
      by blast
    then show "\<exists>g2. run_poll (MainLoop, g1) evs2 = Inr (MainLoop, g2) \<and>
             length (body (snake g2)) =
               length (body (snake g1)) +
               (if hd (body (snake g1)) = position (food g) then 1 else 0)"
      using g1(3) by simp
  qed
  with g1(1) show ?thesis by blast
qed

lemma main_loop_game_over:
  assumes "game_over g" "QUIT \<notin> set evs"
  shows "\<exists>s'. run_poll (MainLoop, g) evs = Inr (WaitLoop, g\<lparr>snake := s'\<rparr>) \<and>
           body s' = body (snake g) \<and> growth_pending s' = growth_pending (snake g)"
proof -
  from handle_events_no_quit [OF assms(2), of g] obtain s' where
    h: "handle_events g evs = Inr (g\<lparr>snake := s'\<rparr>)" "body s' = body (snake g)"
       "growth_pending s' = growth_pending (snake g)"
    by blast
  have "run_poll (MainLoop, g) evs = Inr (WaitLoop, g\<lparr>snake := s'\<rparr>)"
    using h(1) assms(1) by (simp add: then_do_def)
  with h(2,3) show ?thesis by blast
qed

section \<open>Snake.move\<close>

text \<open>
  Claim C1. For every snake with a non-empty body, \<open>move\<close> returns without an error and
  puts a new head in front that is the old head plus the direction vector. When no growth
  is pending the last segment is removed first, so the length is unchanged; when growth is
  pending nothing is removed, so the length grows by exactly one, and the pending flag is
  cleared.
\<close>

theorem C1_move:
  assumes "body s \<noteq> []"
  shows "\<exists>s'. move s = Inr s' \<and>
           body s' = (fst (hd (body s)) + fst (direction s),
                      snd (hd (body s)) + snd (direction s))
                     # (if growth_pending s then body s else butlast (body s)) \<and>
           length (body s') = (if growth_pending s then length (body s) + 1 else length (body s)) \<and>
           \<not> growth_pending s' \<and> direction s' = direction s"
  using assms by (simp add: move_nonempty)

theorem C1_move_witness:
  "body \<lparr>body = [(3, 4), (2, 4)], direction = DOWN, growth_pending = True\<rparr> \<noteq> [] \<and>
   (\<exists>s'. move \<lparr>body = [(3, 4), (2, 4)], direction = DOWN, growth_pending = True\<rparr> = Inr s' \<and>
      body s' = [(3, 5), (3, 4), (2, 4)] \<and> length (body s') = 3 \<and> \<not> growth_pending s') \<and>
   body \<lparr>body = [(3, 4), (2, 4)], direction = DOWN, growth_pending = False\<rparr> \<noteq> [] \<and>
   (\<exists>s'. move \<lparr>body = [(3, 4), (2, 4)], direction = DOWN, growth_pending = False\<rparr> = Inr s' \<and>
      body s' = [(3, 5), (3, 4)] \<and> length (body s') = 2 \<and> \<not> growth_pending s')"
  using C1_move [of "\<lparr>body = [(3, 4), (2, 4)], direction = DOWN, growth_pending = True\<rparr>"]
    C1_move [of "\<lparr>body = [(3, 4), (2, 4)], direction = DOWN, growth_pending = False\<rparr>"]
  by (auto simp: DOWN_def)

section \<open>The end-to-end scenario\<close>

text \<open>
  Claim C4. The grid is 30 by 24 and a new snake is \<open>[(15, 12)]\<close> heading RIGHT. Three
  moves in a row give the body \<open>[(18, 12)]\<close>; with \<open>grow\<close> called before the third move
  the body is \<open>[(18, 12), (17, 12)]\<close>.
\<close>

theorem C4_scenario:
  "GRID_WIDTH = 30 \<and> GRID_HEIGHT = 24 \<and>
   Snake_init = \<lparr>body = [(15, 12)], direction = RIGHT, growth_pending = False\<rparr> \<and>
   then_do (then_do (move Snake_init) move) move =
     Inr \<lparr>body = [(18, 12)], direction = RIGHT, growth_pending = False\<rparr> \<and>
   then_do (then_do (move Snake_init) move) (\<lambda>s. move (grow s)) =
     Inr \<lparr>body = [(18, 12), (17, 12)], direction = RIGHT, growth_pending = False\<rparr>"
  by (simp add: grid_dimensions Snake_init_def move_def then_do_def grow_def RIGHT_def)

section \<open>Snake.change_direction\<close>

text \<open>
  Claim C6. For each of the four unit vectors \<open>d\<close>, \<open>change_direction\<close> returns the snake
  unchanged when \<open>d\<close> is the exact opposite of the current heading and otherwise sets the
  heading to \<open>d\<close>. The function has no error result: a rejected change is silent.
\<close>

theorem C6_change_direction:
  assumes "d \<in> {UP, DOWN, LEFT, RIGHT}"
  shows "change_direction s d =
           (if d = (- fst (direction s), - snd (direction s)) then s else s\<lparr>direction := d\<rparr>)"
  by (cases d; cases "direction s") (auto simp: change_direction_def)

theorem C6_change_direction_witness:
  "LEFT \<in> {UP, DOWN, LEFT, RIGHT} \<and> UP \<in> {UP, DOWN, LEFT, RIGHT} \<and>
   change_direction \<lparr>body = [(15, 12)], direction = RIGHT, growth_pending = False\<rparr> LEFT =
     \<lparr>body = [(15, 12)], direction = RIGHT, growth_pending = False\<rparr> \<and>
   change_direction \<lparr>body = [(15, 12)], direction = RIGHT, growth_pending = False\<rparr> UP =
     \<lparr>body = [(15, 12)], direction = UP, growth_pending = False\<rparr>"
  using C6_change_direction [of LEFT "\<lparr>body = [(15, 12)], direction = RIGHT, growth_pending = False\<rparr>"]
    C6_change_direction [of UP "\<lparr>body = [(15, 12)], direction = RIGHT, growth_pending = False\<rparr>"]
  by (simp add: UP_def LEFT_def RIGHT_def)

section \<open>Snake.grow\<close>

text \<open>
  Claim C10. Calling \<open>grow\<close> any number of times (at least once) before a move has the
  effect of calling it once: the next move adds exactly one segment and clears the flag.
\<close>

theorem C10_grow_idempotent:
  assumes "body s \<noteq> []"
  shows "(grow ^^ Suc n) s = grow s \<and>
         (\<exists>s'. move ((grow ^^ Suc n) s) = Inr s' \<and> move (grow s) = Inr s' \<and>
                length (body s') = length (body s) + 1 \<and> \<not> growth_pending s')"
proof -
  have "(grow ^^ Suc n) s = grow s"
    by (induction n) (simp_all add: grow_def)
  moreover have "body (grow s) \<noteq> []" "growth_pending (grow s)"
    using assms by (simp_all add: grow_def)
  ultimately show ?thesis
    by (simp add: move_nonempty grow_def)
qed

theorem C10_grow_idempotent_witness:
  "body Snake_init \<noteq> [] \<and> (grow ^^ Suc 2) Snake_init = grow Snake_init \<and>
   (\<exists>s'. move ((grow ^^ Suc 2) Snake_init) = Inr s' \<and> move (grow Snake_init) = Inr s' \<and>
          body s' = [(16, 12), (15, 12)] \<and> \<not> growth_pending s')"
  using C10_grow_idempotent [of Snake_init 2]
  by (auto simp: Snake_init_def grid_dimensions move_def grow_def RIGHT_def)

section \<open>Growth\<close>

text \<open>
  Claim C5, as amended. For every snake with a non-empty body, \<open>grow\<close> followed by one
  \<open>move\<close> makes the body one segment longer: the new head is the old head plus the
  direction vector and every earlier segment keeps its cell, one place further from the
  head. So the segment at index \<open>i\<close> of the new body is the old segment \<open>i\<close> shifted by the
  direction vector exactly when \<open>i = 0\<close> or the old segment \<open>i - 1\<close> already was that cell
  (the body was straight along the heading there). A second \<open>move\<close> without another \<open>grow\<close>
  keeps the length.
\<close>

theorem C5_grow_then_move:
  assumes "body s \<noteq> []"
  shows "\<exists>s1 s2. move (grow s) = Inr s1 \<and> move s1 = Inr s2 \<and>
           length (body s1) = length (body s) + 1 \<and>
           body s1 = (fst (hd (body s)) + fst (direction s),
                      snd (hd (body s)) + snd (direction s)) # body s \<and>
           (\<forall>i<length (body s).
              body s1 ! i = (fst (body s ! i) + fst (direction s),
                             snd (body s ! i) + snd (direction s)) \<longleftrightarrow>
              i = 0 \<or> body s ! (i - 1) = (fst (body s ! i) + fst (direction s),
                                           snd (body s ! i) + snd (direction s))) \<and>
           length (body s2) = length (body s1)"
proof -
  let ?h = "(fst (hd (body s)) + fst (direction s), snd (hd (body s)) + snd (direction s))"
  let ?s1 = "\<lparr>body = ?h # body s, direction = direction s, growth_pending = False\<rparr>"
  have ne: "body (grow s) \<noteq> []" using assms by (simp add: grow_def)
  have m1: "move (grow s) = Inr ?s1"
    using move_nonempty [OF ne] by (simp add: grow_def)
  have ne1: "body ?s1 \<noteq> []" by simp
  obtain s2 where m2: "move ?s1 = Inr s2" "length (body s2) = length (body ?s1)"
    using move_nonempty [OF ne1] by simp
  have nth: "\<forall>i<length (body s).
              body ?s1 ! i = (fst (body s ! i) + fst (direction s),
                             snd (body s ! i) + snd (direction s)) \<longleftrightarrow>
              i = 0 \<or> body s ! (i - 1) = (fst (body s ! i) + fst (direction s),
                                           snd (body s ! i) + snd (direction s))"
  proof (intro allI impI)
    fix i assume "i < length (body s)"
    show "body ?s1 ! i = (fst (body s ! i) + fst (direction s),
                             snd (body s ! i) + snd (direction s)) \<longleftrightarrow>
              i = 0 \<or> body s ! (i - 1) = (fst (body s ! i) + fst (direction s),
                                           snd (body s ! i) + snd (direction s))"
      using assms by (cases i) (simp_all add: hd_conv_nth)
  qed
  have "move (grow s) = Inr ?s1 \<and> move ?s1 = Inr s2 \<and>
           length (body ?s1) = length (body s) + 1 \<and> body ?s1 = ?h # body s \<and>
           length (body s2) = length (body ?s1)"
    using m1 m2 by simp
  with nth show ?thesis by blast
qed

theorem C5_grow_then_move_witness:
  "body \<lparr>body = [(16, 12), (15, 12)], direction = DOWN, growth_pending = False\<rparr> \<noteq> [] \<and>
   (\<exists>s1 s2. move (grow \<lparr>body = [(16, 12), (15, 12)], direction = DOWN, growth_pending = False\<rparr>) = Inr s1 \<and>
      move s1 = Inr s2 \<and> body s1 = [(16, 13), (16, 12), (15, 12)] \<and>
      length (body s2) = 3)"
  using C5_grow_then_move [of "\<lparr>body = [(16, 12), (15, 12)], direction = DOWN, growth_pending = False\<rparr>"]
  by (auto simp: DOWN_def)

text \<open>
  The claim as stated says that every earlier segment shifts by the direction vector. A
  snake that has just turned refutes it: with body \<open>[(16, 12), (15, 12)]\<close> heading DOWN,
  the tail segment \<open>(15, 12)\<close> shifted by DOWN is \<open>(15, 13)\<close>, which is no cell of the new
  body.
\<close>

theorem C5_segments_shift_counterexample:
  "move (grow \<lparr>body = [(16, 12), (15, 12)], direction = DOWN, growth_pending = False\<rparr>) =
     Inr \<lparr>body = [(16, 13), (16, 12), (15, 12)], direction = DOWN, growth_pending = False\<rparr> \<and>
   (15 + fst DOWN, 12 + snd DOWN) \<notin> set [(16, 13), (16, 12), (15, 12)]"
  by (simp add: move_def grow_def DOWN_def)

text \<open>
  Claim C8. A snake of length one that grows and then moves has the body
  \<open>[head + direction, head]\<close>; for each of the four unit directions the new head differs
  from the only other segment, so the self-collision test of \<open>_check_collisions\<close> is false
  and the game-over flag after the checks is set only by the wall test.
\<close>

theorem C8_no_self_collision_at_length_one:
  assumes "body (snake g) = [h]" "direction (snake g) \<in> {UP, DOWN, LEFT, RIGHT}"
  shows "\<exists>s' g'. move (grow (snake g)) = Inr s' \<and>
           body s' = [(fst h + fst (direction (snake g)), snd h + snd (direction (snake g))), h] \<and>
           \<not> (\<exists>i. 0 < i \<and> i < length (body s') \<and> body s' ! i = hd (body s')) \<and>
           check_collisions (g\<lparr>snake := s'\<rparr>) = Inr g' \<and>
           (game_over g' \<longleftrightarrow> game_over g \<or>
              fst (hd (body s')) < 0 \<or> GRID_WIDTH \<le> fst (hd (body s')) \<or>
              snd (hd (body s')) < 0 \<or> GRID_HEIGHT \<le> snd (hd (body s')))"
proof -
  let ?d = "direction (snake g)"
  let ?h = "(fst h + fst ?d, snd h + snd ?d)"
  let ?s = "\<lparr>body = [?h, h], direction = ?d, growth_pending = False\<rparr>"
  have ne: "body (grow (snake g)) \<noteq> []" using assms(1) by (simp add: grow_def)
  have m: "move (grow (snake g)) = Inr ?s"
    using move_nonempty [OF ne] assms(1) by (simp add: grow_def)
  have d: "?h \<noteq> h"
    using assms(2) by (cases h) (auto simp: UP_def DOWN_def LEFT_def RIGHT_def)
  have nosc: "\<not> (\<exists>i. 0 < i \<and> i < length (body ?s) \<and> body ?s ! i = hd (body ?s))"
    using d by (auto simp: less_Suc_eq)
  have b: "body (snake (g\<lparr>snake := ?s\<rparr>)) = ?h # [h]" by simp
  from check_collisions_cons [OF b] obtain g' where
    g': "check_collisions (g\<lparr>snake := ?s\<rparr>) = Inr g'"
        "game_over g' \<longleftrightarrow> game_over (g\<lparr>snake := ?s\<rparr>) \<or> fst ?h < 0 \<or> GRID_WIDTH \<le> fst ?h \<or>
                                snd ?h < 0 \<or> GRID_HEIGHT \<le> snd ?h \<or> ?h \<in> set [h]"
    by blast
  have "move (grow (snake g)) = Inr ?s \<and> body ?s = [?h, h] \<and>
        \<not> (\<exists>i. 0 < i \<and> i < length (body ?s) \<and> body ?s ! i = hd (body ?s)) \<and>
        check_collisions (g\<lparr>snake := ?s\<rparr>) = Inr g' \<and>
        (game_over g' \<longleftrightarrow> game_over g \<or>
              fst (hd (body ?s)) < 0 \<or> GRID_WIDTH \<le> fst (hd (body ?s)) \<or>
              snd (hd (body ?s)) < 0 \<or> GRID_HEIGHT \<le> snd (hd (body ?s)))"
    using m nosc g' d by simp
  then show ?thesis by blast
qed

theorem C8_no_self_collision_at_length_one_witness:
  "body (snake \<lparr>snake = Snake_init, food = \<lparr>position = (16, 12)\<rparr>, score = 0, game_over = False,
                 rng = \<lparr>draws = id, cursor = 0\<rparr>\<rparr>) = [(15, 12)] \<and>
   direction (snake \<lparr>snake = Snake_init, food = \<lparr>position = (16, 12)\<rparr>, score = 0, game_over = False,
                 rng = \<lparr>draws = id, cursor = 0\<rparr>\<rparr>) \<in> {UP, DOWN, LEFT, RIGHT} \<and>
   (\<exists>s' g'. move (grow Snake_init) = Inr s' \<and> body s' = [(16, 12), (15, 12)] \<and>
      check_collisions (\<lparr>snake = Snake_init, food = \<lparr>position = (16, 12)\<rparr>, score = 0,
                         game_over = False, rng = \<lparr>draws = id, cursor = 0\<rparr>\<rparr>\<lparr>snake := s'\<rparr>) = Inr g' \<and>
      \<not> game_over g')"
  using C8_no_self_collision_at_length_one [of "\<lparr>snake = Snake_init, food = \<lparr>position = (16, 12)\<rparr>, score = 0, game_over = False,
                 rng = \<lparr>draws = id, cursor = 0\<rparr>\<rparr>" "(15, 12)"]
  by (auto simp: Snake_init_def grid_dimensions RIGHT_def)

section \<open>One tick of the running game\<close>

text \<open>
  Claim C2. A round of the main loop taken while the game is not over, with a non-empty
  body and no QUIT event, returns without an error, and its game-over flag is true exactly
  when the head after the move is outside the grid or equals a body segment at an index
  other than 0.
\<close>

theorem C2_game_over_flag:
  assumes "\<not> game_over g" "body (snake g) \<noteq> []" "QUIT \<notin> set evs"
  shows "\<exists>g1 s g'. handle_events g evs = Inr g1 \<and> move (snake g1) = Inr s \<and>
           run_poll (MainLoop, g) evs = Inr (MainLoop, g') \<and> body (snake g') = body s \<and>
           (game_over g' \<longleftrightarrow>
              (fst (hd (body s)) < 0 \<or> GRID_WIDTH \<le> fst (hd (body s)) \<or>
               snd (hd (body s)) < 0 \<or> GRID_HEIGHT \<le> snd (hd (body s))) \<or>
              (\<exists>i. 0 < i \<and> i < length (body s) \<and> body s ! i = hd (body s)))"
  using main_loop_tick [OF assms] unfolding in_drop1_iff by blast

theorem C2_game_over_flag_witness:
  "\<not> game_over \<lparr>snake = \<lparr>body = [(29, 12), (28, 12)], direction = RIGHT, growth_pending = False\<rparr>,
                  food = \<lparr>position = (3, 3)\<rparr>, score = 0, game_over = False,
                  rng = \<lparr>draws = id, cursor = 0\<rparr>\<rparr> \<and>
   body (snake \<lparr>snake = \<lparr>body = [(29, 12), (28, 12)], direction = RIGHT, growth_pending = False\<rparr>,
                  food = \<lparr>position = (3, 3)\<rparr>, score = 0, game_over = False,
                  rng = \<lparr>draws = id, cursor = 0\<rparr>\<rparr>) \<noteq> [] \<and>
   QUIT \<notin> set [KEYDOWN K_LEFT] \<and> QUIT \<notin> set [KEYDOWN K_UP] \<and>
   (\<exists>g'. run_poll (MainLoop,
             \<lparr>snake = \<lparr>body = [(29, 12), (28, 12)], direction = RIGHT, growth_pending = False\<rparr>,
              food = \<lparr>position = (3, 3)\<rparr>, score = 0, game_over = False,
              rng = \<lparr>draws = id, cursor = 0\<rparr>\<rparr>) [KEYDOWN K_LEFT] = Inr (MainLoop, g') \<and>
          body (snake g') = [(30, 12), (29, 12)] \<and> game_over g') \<and>
   (\<exists>g'. run_poll (MainLoop,
             \<lparr>snake = \<lparr>body = [(29, 12), (28, 12)], direction = RIGHT, growth_pending = False\<rparr>,
              food = \<lparr>position = (3, 3)\<rparr>, score = 0, game_over = False,
              rng = \<lparr>draws = id, cursor = 0\<rparr>\<rparr>) [KEYDOWN K_UP] = Inr (MainLoop, g') \<and>
          body (snake g') = [(29, 11), (29, 12)] \<and> \<not> game_over g')"
  using C2_game_over_flag [of "\<lparr>snake = \<lparr>body = [(29, 12), (28, 12)], direction = RIGHT, growth_pending = False\<rparr>,
              food = \<lparr>position = (3, 3)\<rparr>, score = 0, game_over = False,
              rng = \<lparr>draws = id, cursor = 0\<rparr>\<rparr>" "[KEYDOWN K_LEFT]"]
    C2_game_over_flag [of "\<lparr>snake = \<lparr>body = [(29, 12), (28, 12)], direction = RIGHT, growth_pending = False\<rparr>,
              food = \<lparr>position = (3, 3)\<rparr>, score = 0, game_over = False,
              rng = \<lparr>draws = id, cursor = 0\<rparr>\<rparr>" "[KEYDOWN K_UP]"]
  by (simp add: then_do_def tick_def move_def check_collisions_def get_head_position_def
      change_direction_def grid_dimensions UP_def LEFT_def RIGHT_def)

text \<open>
  Claim C3. In such a round, when the head after the move equals the food position, growth
  becomes pending, the score goes up by exactly 10 and the food gets a freshly drawn
  position inside the grid. Nothing in this depends on the wall and self checks: the food
  check runs first and no check returns early. The witness is a round where the snake
  runs into its own body on the food cell: the score is updated and the game is over.
\<close>

theorem C3_food_collision:
  assumes "\<not> game_over g" "body (snake g) \<noteq> []" "QUIT \<notin> set evs"
  shows "\<exists>g1 s g'. handle_events g evs = Inr g1 \<and> move (snake g1) = Inr s \<and>
           run_poll (MainLoop, g) evs = Inr (MainLoop, g') \<and> body (snake g') = body s \<and>
           (hd (body s) = position (food g) \<longrightarrow>
              growth_pending (snake g') \<and> score g' = score g + 10 \<and>
              (position (food g'), rng g') = spawn_food (rng g) \<and>
              0 \<le> fst (position (food g')) \<and> fst (position (food g')) < GRID_WIDTH \<and>
              0 \<le> snd (position (food g')) \<and> snd (position (food g')) < GRID_HEIGHT)"
proof -
  from main_loop_tick [OF assms] obtain g1 s g' where
    t: "handle_events g evs = Inr g1" "move (snake g1) = Inr s"
       "run_poll (MainLoop, g) evs = Inr (MainLoop, g')" "body (snake g') = body s"
       "growth_pending (snake g') \<longleftrightarrow> hd (body s) = position (food g)"
       "score g' = (if hd (body s) = position (food g) then score g + 10 else score g)"
       "(position (food g'), rng g') =
             (if hd (body s) = position (food g) then spawn_food (rng g)
              else (position (food g), rng g))"
    by blast
  have "hd (body s) = position (food g) \<longrightarrow>
          position (food g') = fst (spawn_food (rng g))"
    using t(7) by (simp add: prod_eq_iff)
  then have "hd (body s) = position (food g) \<longrightarrow>
              0 \<le> fst (position (food g')) \<and> fst (position (food g')) < GRID_WIDTH \<and>
              0 \<le> snd (position (food g')) \<and> snd (position (food g')) < GRID_HEIGHT"
    using spawn_food_in_grid [of "rng g"] by simp
  with t show ?thesis by auto
qed

theorem C3_food_collision_witness:
  "\<not> game_over \<lparr>snake = \<lparr>body = [(5, 5), (4, 5), (4, 4), (5, 4), (6, 4)], direction = UP,
                           growth_pending = False\<rparr>,
                  food = \<lparr>position = (5, 4)\<rparr>, score = 20, game_over = False,
                  rng = \<lparr>draws = id, cursor = 7\<rparr>\<rparr> \<and>
   body (snake \<lparr>snake = \<lparr>body = [(5, 5), (4, 5), (4, 4), (5, 4), (6, 4)], direction = UP,
                           growth_pending = False\<rparr>,
                  food = \<lparr>position = (5, 4)\<rparr>, score = 20, game_over = False,
                  rng = \<lparr>draws = id, cursor = 7\<rparr>\<rparr>) \<noteq> [] \<and>
   QUIT \<notin> set [] \<and>
   (\<exists>g'. run_poll (MainLoop,
             \<lparr>snake = \<lparr>body = [(5, 5), (4, 5), (4, 4), (5, 4), (6, 4)], direction = UP,
                           growth_pending = False\<rparr>,
              food = \<lparr>position = (5, 4)\<rparr>, score = 20, game_over = False,
              rng = \<lparr>draws = id, cursor = 7\<rparr>\<rparr>) [] = Inr (MainLoop, g') \<and>
          body (snake g') = [(5, 4), (5, 5), (4, 5), (4, 4), (5, 4)] \<and>
          growth_pending (snake g') \<and> score g' = 30 \<and> position (food g') = (7, 8) \<and>
          game_over g')"
  using C3_food_collision [of "\<lparr>snake = \<lparr>body = [(5, 5), (4, 5), (4, 4), (5, 4), (6, 4)], direction = UP,
                           growth_pending = False\<rparr>,
              food = \<lparr>position = (5, 4)\<rparr>, score = 20, game_over = False,
              rng = \<lparr>draws = id, cursor = 7\<rparr>\<rparr>" "[]"]
  by (simp add: then_do_def tick_def move_def check_collisions_def get_head_position_def
      grid_dimensions UP_def grow_def spawn_food_def randint_def)

section \<open>Body length over the ticks of a game\<close>

text \<open>
  Claim C7, as amended. Over every sequence of ticks of one game, whatever the direction
  keys pressed (a reversing key is ignored by \<open>change_direction\<close>), the body length never
  decreases. In a single tick the length goes up by exactly one when growth is pending at
  the start of the tick and is unchanged otherwise, and growth is pending after a tick
  exactly when the head after the move of that tick equals the food position. So on the
  second of two ticks in a row the length goes up by exactly one when the head reached the
  food on the first tick, and is unchanged otherwise.
\<close>

theorem C7_length_nondecreasing:
  assumes "body (snake g) \<noteq> []" "\<forall>evs\<in>set polls. QUIT \<notin> set evs"
  shows "(\<exists>g'. ticks g polls = Inr g' \<and> length (body (snake g)) \<le> length (body (snake g'))) \<and>
         (\<not> game_over g \<and> QUIT \<notin> set evs \<longrightarrow>
            (\<exists>g1. run_poll (MainLoop, g) evs = Inr (MainLoop, g1) \<and>
               length (body (snake g1)) =
                 length (body (snake g)) + (if growth_pending (snake g) then 1 else 0) \<and>
               (growth_pending (snake g1) \<longleftrightarrow> hd (body (snake g1)) = position (food g)))) \<and>
         (\<not> game_over g \<and> QUIT \<notin> set evs \<and> QUIT \<notin> set evs2 \<longrightarrow>
            (\<exists>g1. run_poll (MainLoop, g) evs = Inr (MainLoop, g1) \<and>
               (\<not> game_over g1 \<longrightarrow>
                  (\<exists>g2. run_poll (MainLoop, g1) evs2 = Inr (MainLoop, g2) \<and>
                     length (body (snake g2)) =
                       length (body (snake g1)) +
                       (if hd (body (snake g1)) = position (food g) then 1 else 0)))))"
proof (intro conjI impI)
  show "\<exists>g'. ticks g polls = Inr g' \<and> length (body (snake g)) \<le> length (body (snake g'))"
    using ticks_length [OF assms] .
next
  assume "\<not> game_over g \<and> QUIT \<notin> set evs"
  then show "\<exists>g1. run_poll (MainLoop, g) evs = Inr (MainLoop, g1) \<and>
               length (body (snake g1)) =
                 length (body (snake g)) + (if growth_pending (snake g) then 1 else 0) \<and>
               (growth_pending (snake g1) \<longleftrightarrow> hd (body (snake g1)) = position (food g))"
    using main_loop_length [OF _ assms(1)] by simp
next
  assume "\<not> game_over g \<and> QUIT \<notin> set evs \<and> QUIT \<notin> set evs2"
  then show "\<exists>g1. run_poll (MainLoop, g) evs = Inr (MainLoop, g1) \<and>
               (\<not> game_over g1 \<longrightarrow>
                  (\<exists>g2. run_poll (MainLoop, g1) evs2 = Inr (MainLoop, g2) \<and>
                     length (body (snake g2)) =
                       length (body (snake g1)) +
                       (if hd (body (snake g1)) = position (food g) then 1 else 0)))"
    using two_ticks_length [OF _ assms(1)] by simp
qed

theorem C7_length_nondecreasing_witness:
  "body (snake \<lparr>snake = \<lparr>body = [(15, 12)], direction = RIGHT, growth_pending = False\<rparr>,
          food = \<lparr>position = (16, 12)\<rparr>, score = 0, game_over = False,
          rng = \<lparr>draws = id, cursor = 0\<rparr>\<rparr>) \<noteq> [] \<and>
   QUIT \<notin> set [] \<and> QUIT \<notin> set [KEYDOWN K_LEFT] \<and>
   \<not> game_over \<lparr>snake = \<lparr>body = [(15, 12)], direction = RIGHT, growth_pending = False\<rparr>,
          food = \<lparr>position = (16, 12)\<rparr>, score = 0, game_over = False,
          rng = \<lparr>draws = id, cursor = 0\<rparr>\<rparr> \<and>
   (\<exists>g'. ticks \<lparr>snake = \<lparr>body = [(15, 12)], direction = RIGHT, growth_pending = False\<rparr>,
          food = \<lparr>position = (16, 12)\<rparr>, score = 0, game_over = False,
          rng = \<lparr>draws = id, cursor = 0\<rparr>\<rparr> [[], [KEYDOWN K_LEFT]] = Inr g' \<and>
      body (snake g') = [(17, 12), (16, 12)]) \<and>
   (\<exists>g1 g2. run_poll (MainLoop, \<lparr>snake = \<lparr>body = [(15, 12)], direction = RIGHT, growth_pending = False\<rparr>,
          food = \<lparr>position = (16, 12)\<rparr>, score = 0, game_over = False,
          rng = \<lparr>draws = id, cursor = 0\<rparr>\<rparr>) [] = Inr (MainLoop, g1) \<and>
      body (snake g1) = [(16, 12)] \<and> growth_pending (snake g1) \<and> \<not> game_over g1 \<and>
      run_poll (MainLoop, g1) [KEYDOWN K_LEFT] = Inr (MainLoop, g2) \<and>
      body (snake g2) = [(17, 12), (16, 12)])"
  using C7_length_nondecreasing [of "\<lparr>snake = \<lparr>body = [(15, 12)], direction = RIGHT, growth_pending = False\<rparr>,
          food = \<lparr>position = (16, 12)\<rparr>, score = 0, game_over = False,
          rng = \<lparr>draws = id, cursor = 0\<rparr>\<rparr>" "[[], [KEYDOWN K_LEFT]]" "[]" "[KEYDOWN K_LEFT]"]
  by (simp add: then_do_def tick_def move_def change_direction_def LEFT_def
      check_collisions_def get_head_position_def grid_dimensions RIGHT_def grow_def
      spawn_food_def randint_def)

text \<open>
  The claim as stated puts the change of length on the tick where the head equals the food
  position. In the first tick below the head reaches the food at \<open>(16, 12)\<close> and the length
  stays 1; in the second tick the length becomes 2 while the head \<open>(17, 12)\<close> is not on the
  food, which was drawn again at \<open>(0, 1)\<close>.
\<close>

theorem C7_growth_on_consumption_tick_counterexample:
  "ticks \<lparr>snake = \<lparr>body = [(15, 12)], direction = RIGHT, growth_pending = False\<rparr>,
          food = \<lparr>position = (16, 12)\<rparr>, score = 0, game_over = False,
          rng = \<lparr>draws = id, cursor = 0\<rparr>\<rparr> [[]] =
     Inr \<lparr>snake = \<lparr>body = [(16, 12)], direction = RIGHT, growth_pending = True\<rparr>,
          food = \<lparr>position = (0, 1)\<rparr>, score = 10, game_over = False,
          rng = \<lparr>draws = id, cursor = 2\<rparr>\<rparr> \<and>
   ticks \<lparr>snake = \<lparr>body = [(16, 12)], direction = RIGHT, growth_pending = True\<rparr>,
          food = \<lparr>position = (0, 1)\<rparr>, score = 10, game_over = False,
          rng = \<lparr>draws = id, cursor = 2\<rparr>\<rparr> [[]] =
     Inr \<lparr>snake = \<lparr>body = [(17, 12), (16, 12)], direction = RIGHT, growth_pending = False\<rparr>,
          food = \<lparr>position = (0, 1)\<rparr>, score = 10, game_over = False,
          rng = \<lparr>draws = id, cursor = 2\<rparr>\<rparr>"
  by (simp add: then_do_def tick_def move_def check_collisions_def get_head_position_def
      grid_dimensions RIGHT_def grow_def spawn_food_def randint_def)

section \<open>Restart after game over\<close>

text \<open>
  Claim C9, as amended. While the program waits in the loop of \<open>_display_game_over\<close>, a
  result of \<open>pygame.event.get()\<close> that holds a KEYDOWN event and no QUIT event ends the
  wait with a full reset: the score is 0, the snake is the single centre segment
  \<open>(15, 12)\<close> heading RIGHT with no growth pending, the food is a freshly drawn position
  inside the grid, the game-over flag is false and control is back in the main loop.
  A round of the main loop that starts with the game-over flag set resets nothing,
  whatever events without a QUIT it polls: \<open>_handle_events\<close> consumes them, at most the
  heading of the snake changes, and the program enters the wait loop with the score, the
  food, the body and the flag as they were.
\<close>

theorem C9_restart:
  assumes "QUIT \<notin> set evs"
  shows "(KEYDOWN k \<in> set evs \<longrightarrow>
           (\<exists>g'. run_poll (WaitLoop, g) evs = Inr (MainLoop, g') \<and>
              score g' = 0 \<and>
              snake g' = \<lparr>body = [(15, 12)], direction = RIGHT, growth_pending = False\<rparr> \<and>
              \<not> game_over g' \<and> (\<exists>r. (food g', rng g') = Food_init r) \<and>
              0 \<le> fst (position (food g')) \<and> fst (position (food g')) < GRID_WIDTH \<and>
              0 \<le> snd (position (food g')) \<and> snd (position (food g')) < GRID_HEIGHT)) \<and>
         (game_over g \<longrightarrow>
           (\<exists>s'. run_poll (MainLoop, g) evs = Inr (WaitLoop, g\<lparr>snake := s'\<rparr>) \<and>
              body s' = body (snake g) \<and> growth_pending s' = growth_pending (snake g)))"
proof (intro conjI impI)
  assume k: "KEYDOWN k \<in> set evs"
  from wait_events_keydown [OF assms k, of True g] obtain g' r where
    g': "wait_events (True, g) evs = Inr (False, g')" "score g' = 0" "snake g' = Snake_init"
        "\<not> game_over g'" "(food g', rng g') = Food_init r"
    by blast
  have "run_poll (WaitLoop, g) evs = Inr (MainLoop, g')"
    using g'(1) by (simp add: then_do_def)
  moreover have "snake g' = \<lparr>body = [(15, 12)], direction = RIGHT, growth_pending = False\<rparr>"
    using g'(3) by (simp add: Snake_init_def grid_dimensions)
  ultimately show "\<exists>g'. run_poll (WaitLoop, g) evs = Inr (MainLoop, g') \<and>
              score g' = 0 \<and>
              snake g' = \<lparr>body = [(15, 12)], direction = RIGHT, growth_pending = False\<rparr> \<and>
              \<not> game_over g' \<and> (\<exists>r. (food g', rng g') = Food_init r) \<and>
              0 \<le> fst (position (food g')) \<and> fst (position (food g')) < GRID_WIDTH \<and>
              0 \<le> snd (position (food g')) \<and> snd (position (food g')) < GRID_HEIGHT"
    using g'(2,4,5) Food_init_in_grid [OF g'(5)] by blast
next
  assume "game_over g"
  then show "\<exists>s'. run_poll (MainLoop, g) evs = Inr (WaitLoop, g\<lparr>snake := s'\<rparr>) \<and>
              body s' = body (snake g) \<and> growth_pending s' = growth_pending (snake g)"
    using main_loop_game_over [OF _ assms] by simp
qed

theorem C9_restart_witness:
  "QUIT \<notin> set [OTHER_EVENT, KEYDOWN K_UP] \<and> KEYDOWN K_UP \<in> set [OTHER_EVENT, KEYDOWN K_UP] \<and>
   game_over \<lparr>snake = \<lparr>body = [(30, 12), (29, 12)], direction = RIGHT, growth_pending = False\<rparr>,
         food = \<lparr>position = (2, 3)\<rparr>, score = 10, game_over = True,
         rng = \<lparr>draws = id, cursor = 4\<rparr>\<rparr> \<and>
   run_poll (WaitLoop,
        \<lparr>snake = \<lparr>body = [(30, 12), (29, 12)], direction = RIGHT, growth_pending = False\<rparr>,
         food = \<lparr>position = (2, 3)\<rparr>, score = 10, game_over = True,
         rng = \<lparr>draws = id, cursor = 4\<rparr>\<rparr>) [OTHER_EVENT, KEYDOWN K_UP] =
     Inr (MainLoop,
        \<lparr>snake = \<lparr>body = [(15, 12)], direction = RIGHT, growth_pending = False\<rparr>,
         food = \<lparr>position = (4, 5)\<rparr>, score = 0, game_over = False,
         rng = \<lparr>draws = id, cursor = 6\<rparr>\<rparr>) \<and>
   run_poll (MainLoop,
        \<lparr>snake = \<lparr>body = [(30, 12), (29, 12)], direction = RIGHT, growth_pending = False\<rparr>,
         food = \<lparr>position = (2, 3)\<rparr>, score = 10, game_over = True,
         rng = \<lparr>draws = id, cursor = 4\<rparr>\<rparr>) [OTHER_EVENT, KEYDOWN K_UP] =
     Inr (WaitLoop,
        \<lparr>snake = \<lparr>body = [(30, 12), (29, 12)], direction = UP, growth_pending = False\<rparr>,
         food = \<lparr>position = (2, 3)\<rparr>, score = 10, game_over = True,
         rng = \<lparr>draws = id, cursor = 4\<rparr>\<rparr>)"
  using C9_restart [of "[OTHER_EVENT, KEYDOWN K_UP]" K_UP
      "\<lparr>snake = \<lparr>body = [(30, 12), (29, 12)], direction = RIGHT, growth_pending = False\<rparr>,
         food = \<lparr>position = (2, 3)\<rparr>, score = 10, game_over = True,
         rng = \<lparr>draws = id, cursor = 4\<rparr>\<rparr>"]
  by (simp add: then_do_def reset_game_def Food_init_def Snake_init_def spawn_food_def
      randint_def grid_dimensions change_direction_def UP_def RIGHT_def)

text \<open>
  The claim as stated lets any key event reset the game once the game is over. Below, the
  first tick runs a snake of length two into the right wall; the KEYDOWN event of the next
  poll is consumed by \<open>_handle_events\<close> as a change of heading, the score stays 10 and the
  flag stays true, and the program then waits for a further key.
\<close>

theorem C9_key_event_ignored_counterexample:
  "run (MainLoop,
        \<lparr>snake = \<lparr>body = [(29, 12), (28, 12)], direction = RIGHT, growth_pending = False\<rparr>,
         food = \<lparr>position = (2, 3)\<rparr>, score = 10, game_over = False,
         rng = \<lparr>draws = id, cursor = 4\<rparr>\<rparr>) [[], [KEYDOWN K_UP]] =
     Inr (WaitLoop,
        \<lparr>snake = \<lparr>body = [(30, 12), (29, 12)], direction = UP, growth_pending = False\<rparr>,
         food = \<lparr>position = (2, 3)\<rparr>, score = 10, game_over = True,
         rng = \<lparr>draws = id, cursor = 4\<rparr>\<rparr>)"
  by (simp add: then_do_def tick_def move_def check_collisions_def get_head_position_def
      grid_dimensions RIGHT_def UP_def change_direction_def)

end
